theory Spec2Isabelle
  imports Complex_Main
begin

section \<open>The documentation generator \<open>scripts/gen-docs.py\<close>\<close>

text \<open>
  The script loads a JSON document, takes its \<open>docs\<close> member, deletes the keys
  \<open>name\<close> and \<open>description\<close> from it and prints the rest as an outline: a heading for
  every nested mapping, a bullet line for every string, the elements of every list as
  they are. A module-level variable \<open>last\<close> remembers the Python type of the value that
  was printed most recently.

  Modelling decisions.
  \<^item> A value returned by \<open>json.loads\<close> is a \<open>json\<close>; a Python \<open>dict\<close> is the list of its
    items in insertion order, which is the order \<open>x.items()\<close> iterates in.
  \<^item> A Python string is the list of the bytes of its UTF-8 encoding, so a string of
    ASCII characters is the list of its characters. \<open>str.title\<close> is written out for
    strings of ASCII characters; on a string with another character it follows Python's
    Unicode tables, which the script does not hold: there it is \<open>utitle\<close>, a parameter
    of the model.
  \<^item> Standard output is the list of the texts written by the calls of \<open>print\<close>, one entry
    per call, oldest first; \<open>stdout_bytes\<close> puts the newline after each of them.
  \<^item> The global \<open>last\<close> and standard output form the \<open>state\<close> that every function takes
    and returns.
  \<^item> \<open>print(line)\<close> shows a value that is not a string through Python's built-in
    \<open>repr\<close>, which is a parameter of the model.
  \<^item> An exception is a value of type \<open>error\<close>; the state at the moment of the failure is
    returned with it.
  \<^item> Reading and parsing the file, and Python's limit on the depth of recursion, are
    outside the model: \<open>main\<close> starts from the loaded value.
\<close>

subsection \<open>Values\<close>

datatype json =
    JNull
  | JBool bool
  | JInt int
  | JFloat real
  | JString string
  | JArray "json list"
  | JObject "(string \<times> json) list"

type_synonym pydict = "(string \<times> json) list"

text \<open>The three types the script tests for, and the values of the global \<open>last\<close>.\<close>

datatype pytype = PyDict | PyStr | PyList

fun isinstance :: "json \<Rightarrow> pytype \<Rightarrow> bool" where
  "isinstance (JObject m) PyDict = True"
| "isinstance (JString t) PyStr = True"
| "isinstance (JArray l) PyList = True"
| "isinstance v ty = False"

record state =
  last_g :: "pytype option"
  stdout :: "string list"

text \<open>The module starts with \<open>last = None\<close> and nothing printed.\<close>

definition init :: state where
  "init = \<lparr>last_g = None, stdout = []\<rparr>"

definition print :: "string \<Rightarrow> state \<Rightarrow> state" where
  "print line s = s\<lparr>stdout := stdout s @ [line]\<rparr>"

definition stdout_bytes :: "state \<Rightarrow> string" where
  "stdout_bytes s = concat (map (\<lambda>line. line @ [CHR 0x0A]) (stdout s))"

subsection \<open>The string methods \<open>replace\<close> and \<open>title\<close>\<close>

definition is_upper :: "char \<Rightarrow> bool" where
  "is_upper c = (65 \<le> (of_char c :: nat) \<and> (of_char c :: nat) \<le> 90)"

definition is_lower :: "char \<Rightarrow> bool" where
  "is_lower c = (97 \<le> (of_char c :: nat) \<and> (of_char c :: nat) \<le> 122)"

definition is_cased :: "char \<Rightarrow> bool" where
  "is_cased c = (is_upper c \<or> is_lower c)"

definition to_upper :: "char \<Rightarrow> char" where
  "to_upper c = (if is_lower c then char_of ((of_char c :: nat) - 32) else c)"

definition to_lower :: "char \<Rightarrow> char" where
  "to_lower c = (if is_upper c then char_of ((of_char c :: nat) + 32) else c)"

definition is_ascii :: "char \<Rightarrow> bool" where
  "is_ascii c = ((of_char c :: nat) < 128)"

text \<open>
  \<open>str.title\<close> walks the string once: a character that follows a cased character is
  lowered, any other character is raised. Among the ASCII characters the cased ones are
  the 52 letters; a string that has a character outside ASCII is left to \<open>utitle\<close>.
\<close>

fun title_from :: "bool \<Rightarrow> string \<Rightarrow> string" where
  "title_from previous_is_cased [] = []"
| "title_from previous_is_cased (c # cs) =
     (if previous_is_cased then to_lower c else to_upper c) # title_from (is_cased c) cs"

definition title :: "(string \<Rightarrow> string) \<Rightarrow> string \<Rightarrow> string" where
  "title utitle w = (if list_all is_ascii w then title_from False w else utitle w)"

text \<open>\<open>str.replace(old, new)\<close> where \<open>old\<close> and \<open>new\<close> are one character each.\<close>

fun replace_chr :: "char \<Rightarrow> char \<Rightarrow> string \<Rightarrow> string" where
  "replace_chr old new [] = []"
| "replace_chr old new (c # cs) = (if c = old then new else c) # replace_chr old new cs"

text \<open>What \<open>print\<close> writes for one argument: a string as it is, another value by \<open>repr\<close>.\<close>

fun str_of :: "(json \<Rightarrow> string) \<Rightarrow> json \<Rightarrow> string" where
  "str_of repr (JString t) = t"
| "str_of repr v = repr v"

subsection \<open>The traversal \<open>thing\<close>\<close>

function thing ::
  "(json \<Rightarrow> string) \<Rightarrow> (string \<Rightarrow> string) \<Rightarrow> pydict \<Rightarrow> nat \<Rightarrow> state \<Rightarrow> state" where
  "thing repr utitle [] i s = s"
| "thing repr utitle ((k, v) # rest) i s =
     (case v of
        JObject m \<Rightarrow>
          (let s1 = (if last_g s \<noteq> None \<and> last_g s \<noteq> Some PyDict then print [] s else s);
               s2 = s1\<lparr>last_g := Some PyDict\<rparr>;
               s3 = print (replicate i CHR ''#'' @ '' '' @ title utitle (replace_chr CHR ''_'' CHR '' '' k)) s2;
               s4 = print [] s3;
               s5 = thing repr utitle m (i + 1) s4
           in thing repr utitle rest i s5)
      | JString t \<Rightarrow>
          thing repr utitle rest i ((print (''- `'' @ k @ ''`: '' @ t) s)\<lparr>last_g := Some PyStr\<rparr>)
      | JArray l \<Rightarrow>
          thing repr utitle rest i ((fold (\<lambda>line. print (str_of repr line)) l s)\<lparr>last_g := Some PyList\<rparr>)
      | _ \<Rightarrow> thing repr utitle rest i s)"
  by pat_completeness auto
termination
  by (relation "measure (\<lambda>(repr, utitle, x, i, s). size_list (size_prod (\<lambda>_. 0) size) x)") auto

subsection \<open>The module body\<close>

datatype error = KeyError string | TypeError | AttributeError

text \<open>\<open>v[key]\<close> and \<open>del v[key]\<close> for a string \<open>key\<close>.\<close>

fun getitem :: "json \<Rightarrow> string \<Rightarrow> error + json" where
  "getitem (JObject m) key =
     (case map_of m key of None \<Rightarrow> Inl (KeyError key) | Some v \<Rightarrow> Inr v)"
| "getitem v key = Inl TypeError"

fun delitem :: "json \<Rightarrow> string \<Rightarrow> error + json" where
  "delitem (JObject m) key =
     (if key \<in> fst ` set m then Inr (JObject (filter (\<lambda>(k, v). k \<noteq> key) m))
      else Inl (KeyError key))"
| "delitem v key = Inl TypeError"

text \<open>
  The statements under \<open>with open(...)\<close>, from the loaded value on. The result is the
  exception raised, or the value of the variable \<open>x\<close> when the script ends.
\<close>

definition main ::
  "(json \<Rightarrow> string) \<Rightarrow> (string \<Rightarrow> string) \<Rightarrow> json \<Rightarrow> state \<Rightarrow> (error + json) \<times> state" where
  "main repr utitle loaded s =
     (case getitem loaded ''docs'' of
        Inl e \<Rightarrow> (Inl e, s)
      | Inr x \<Rightarrow>
          (case delitem x ''name'' of
             Inl e \<Rightarrow> (Inl e, s)
           | Inr x1 \<Rightarrow>
               (case delitem x1 ''description'' of
                  Inl e \<Rightarrow> (Inl e, s)
                | Inr x2 \<Rightarrow>
                    (case x2 of
                       JObject m \<Rightarrow> (Inr x2, thing repr utitle m 3 s)
                     | _ \<Rightarrow> (Inl AttributeError, s)))))"

subsection \<open>The flattened emission order\<close>

text \<open>
  The claims speak of the emissions of a traversal in the order in which they happen.
  \<open>emissions\<close> lists them for a mapping visited at heading level \<open>i\<close>: a group with its
  level and key, followed by the emissions of its members; an option with its key and
  text; the lines of a list. A value of another type emits nothing.
\<close>

datatype emission = EGroup nat string | EOption string string | ERawLines "string list"

function (sequential) emissions :: "(json \<Rightarrow> string) \<Rightarrow> pydict \<Rightarrow> nat \<Rightarrow> emission list" where
  "emissions repr [] i = []"
| "emissions repr ((k, JObject m) # rest) i =
     EGroup i k # emissions repr m (Suc i) @ emissions repr rest i"
| "emissions repr ((k, JString t) # rest) i = EOption k t # emissions repr rest i"
| "emissions repr ((k, JArray l) # rest) i =
     ERawLines (map (str_of repr) l) # emissions repr rest i"
| "emissions repr ((k, v) # rest) i = emissions repr rest i"
  by pat_completeness auto
termination
  by (relation "measure (\<lambda>(repr, x, i). size_list (size_prod (\<lambda>_. 0) size) x)") auto

fun kind_of :: "emission \<Rightarrow> pytype" where
  "kind_of (EGroup i k) = PyDict"
| "kind_of (EOption k t) = PyStr"
| "kind_of (ERawLines ls) = PyList"

text \<open>The kind of the last emission of a sequence, \<open>prev\<close> when there is none.\<close>

fun final_kind :: "pytype option \<Rightarrow> emission list \<Rightarrow> pytype option" where
  "final_kind prev [] = prev"
| "final_kind prev (e # es) = final_kind (Some (kind_of e)) es"

text \<open>
  The lines of a sequence of emissions when the blank line before a heading is decided
  from the kind of the emission before it, as line 13 of the script decides it: a blank
  line after an option or a list, none at the start and none after a group.
\<close>

fun layout :: "(string \<Rightarrow> string) \<Rightarrow> pytype option \<Rightarrow> emission list \<Rightarrow> string list" where
  "layout utitle prev [] = []"
| "layout utitle prev (EGroup i k # es) =
     (if prev = Some PyStr \<or> prev = Some PyList then [[]] else [])
       @ [replicate i CHR ''#'' @ '' '' @ title utitle (replace_chr CHR ''_'' CHR '' '' k), []]
       @ layout utitle (Some PyDict) es"
| "layout utitle prev (EOption k t # es) = (''- `'' @ k @ ''`: '' @ t) # layout utitle (Some PyStr) es"
| "layout utitle prev (ERawLines ls # es) = ls @ layout utitle (Some PyList) es"

text \<open>
  The same with the rule as the specification words it: a blank line before a heading
  when the emission before it is a group.
\<close>

fun spec_layout ::
  "(string \<Rightarrow> string) \<Rightarrow> pytype option \<Rightarrow> emission list \<Rightarrow> string list" where
  "spec_layout utitle prev [] = []"
| "spec_layout utitle prev (EGroup i k # es) =
     (if prev = Some PyDict then [[]] else [])
       @ [replicate i CHR ''#'' @ '' '' @ title utitle (replace_chr CHR ''_'' CHR '' '' k), []]
       @ spec_layout utitle (Some PyDict) es"
| "spec_layout utitle prev (EOption k t # es) = (''- `'' @ k @ ''`: '' @ t) # spec_layout utitle (Some PyStr) es"
| "spec_layout utitle prev (ERawLines ls # es) = ls @ spec_layout utitle (Some PyList) es"

text \<open>
  \<open>group_at x d k m\<close>: the mapping \<open>m\<close> is the value of key \<open>k\<close>, \<open>d\<close> mappings below \<open>x\<close>.
\<close>

inductive group_at :: "pydict \<Rightarrow> nat \<Rightarrow> string \<Rightarrow> pydict \<Rightarrow> bool" where
  child: "(k, JObject m) \<in> set x \<Longrightarrow> group_at x 0 k m"
| below: "(k', JObject m') \<in> set x \<Longrightarrow> group_at m' d k m \<Longrightarrow> group_at x (Suc d) k m"

code_pred group_at .

text \<open>
  Title case as the specification describes it, written without the functions of the
  model: the letters are the two alphabets below, a small letter has the capital at its
  place in the other alphabet and the other way round, and, position by position, a
  character that follows a letter is made small and any other character is made capital.
\<close>

definition small_letters :: string where
  "small_letters = ''abcdefghijklmnopqrstuvwxyz''"

definition capital_letters :: string where
  "capital_letters = ''ABCDEFGHIJKLMNOPQRSTUVWXYZ''"

definition spec_is_letter :: "char \<Rightarrow> bool" where
  "spec_is_letter c = (c \<in> set small_letters \<or> c \<in> set capital_letters)"

definition spec_capital :: "char \<Rightarrow> char" where
  "spec_capital c =
     (case map_of (zip small_letters capital_letters) c of Some u \<Rightarrow> u | None \<Rightarrow> c)"

definition spec_small :: "char \<Rightarrow> char" where
  "spec_small c =
     (case map_of (zip capital_letters small_letters) c of Some l \<Rightarrow> l | None \<Rightarrow> c)"

definition spec_title_case :: "string \<Rightarrow> string" where
  "spec_title_case w =
     map (\<lambda>n. if 0 < n \<and> spec_is_letter (w ! (n - 1)) then spec_small (w ! n)
              else spec_capital (w ! n))
       [0..<length w]"

text \<open>
  The heading text of a key: the key with a space for every underscore, in title case.
  For a key of ASCII characters that is \<open>spec_title_case\<close>; for another key the title
  case is the one of Python's Unicode tables, \<open>utitle\<close>.
\<close>

definition spec_heading_text :: "(string \<Rightarrow> string) \<Rightarrow> string \<Rightarrow> string" where
  "spec_heading_text utitle k =
     (let w = map (\<lambda>c. if c = CHR ''_'' then CHR '' '' else c) k
      in if list_all (\<lambda>c. (of_char c :: nat) < 128) w then spec_title_case w else utitle w)"

text \<open>
  Stand-ins for \<open>repr\<close> and \<open>utitle\<close> in the examples, none of which prints a value that
  is not a string or has a key with a character outside ASCII.
\<close>

definition repr_stub :: "json \<Rightarrow> string" where
  "repr_stub v = ''<repr>''"

definition utitle_stub :: "string \<Rightarrow> string" where
  "utitle_stub w = w"

section \<open>Properties\<close>

subsection \<open>The traversal as a layout of its emissions\<close>

lemma fold_print: "fold (\<lambda>line. print (f line)) l s = s\<lparr>stdout := stdout s @ map f l\<rparr>"
  by (induction l arbitrary: s) (simp_all add: print_def)

lemma layout_append:
  "layout utitle prev (es @ fs) = layout utitle prev es @ layout utitle (final_kind prev es) fs"
  by (induction utitle prev es rule: layout.induct) simp_all

lemma final_kind_append:
  "final_kind prev (es @ fs) = final_kind (final_kind prev es) fs"
  by (induction es arbitrary: prev) simp_all

lemma thing_layout_all:
  "\<forall>s. thing repr utitle x i s =
     \<lparr>last_g = final_kind (last_g s) (emissions repr x i),
      stdout = stdout s @ layout utitle (last_g s) (emissions repr x i)\<rparr>"
proof (induction repr x i rule: emissions.induct)
  case (1 repr i)
  show ?case by simp
next
  case (2 repr k m rest i)
  show ?case
  proof
    fix s
    show "thing repr utitle ((k, JObject m) # rest) i s =
     \<lparr>last_g = final_kind (last_g s) (emissions repr ((k, JObject m) # rest) i),
      stdout = stdout s @ layout utitle (last_g s) (emissions repr ((k, JObject m) # rest) i)\<rparr>"
      using 2 by (cases "last_g s"; simp add: print_def Let_def layout_append final_kind_append; (rename_tac a, case_tac a; simp))
  qed
next
  case (3 repr k t rest i)
  then show ?case by (simp add: print_def)
next
  case (4 repr k l rest i)
  then show ?case by (simp add: fold_print)
qed simp_all

lemma thing_layout:
  "thing repr utitle x i s =
     \<lparr>last_g = final_kind (last_g s) (emissions repr x i),
      stdout = stdout s @ layout utitle (last_g s) (emissions repr x i)\<rparr>"
  using thing_layout_all by blast

lemma thing_stdout:
  "stdout (thing repr utitle x i s) = stdout s @ layout utitle (last_g s) (emissions repr x i)"
  by (simp add: thing_layout)

lemma thing_last_g:
  "last_g (thing repr utitle x i s) = final_kind (last_g s) (emissions repr x i)"
  by (simp add: thing_layout)

lemma emissions_member:
  "(k, JObject m) \<in> set x \<Longrightarrow>
     EGroup i k \<in> set (emissions repr x i) \<and>
     set (emissions repr m (Suc i)) \<subseteq> set (emissions repr x i)"
proof (induction x)
  case Nil
  then show ?case by simp
next
  case (Cons p x)
  obtain k' v where p: "p = (k', v)" by (cases p)
  show ?case
  proof (cases "p = (k, JObject m)")
    case True
    then show ?thesis by auto
  next
    case False
    with Cons have ih: "EGroup i k \<in> set (emissions repr x i) \<and>
        set (emissions repr m (Suc i)) \<subseteq> set (emissions repr x i)"
      by simp
    then show ?thesis unfolding p by (cases v) auto
  qed
qed

lemma group_at_emissions:
  "group_at x d k m \<Longrightarrow> EGroup (i + d) k \<in> set (emissions repr x i)"
proof (induction arbitrary: i rule: group_at.induct)
  case (child k m x)
  then show ?case using emissions_member by simp
next
  case (below k' m' x d k m)
  from below.IH [of "Suc i"] have "EGroup (i + Suc d) k \<in> set (emissions repr m' (Suc i))"
    by simp
  with emissions_member [OF below.hyps(1)] show ?case by blast
qed

lemma layout_group:
  "EGroup j k \<in> set es \<Longrightarrow>
     \<exists>pre post. layout utitle prev es =
       pre @ [replicate j CHR ''#'' @ '' '' @ title utitle (replace_chr CHR ''_'' CHR '' '' k), []] @ post"
proof (induction utitle prev es rule: layout.induct)
  case (1 utitle prev)
  then show ?case by simp
next
  case (2 utitle prev i k' es)
  show ?case
  proof (cases "EGroup j k = EGroup i k'")
    case True
    then have "layout utitle prev (EGroup i k' # es) =
        (if prev = Some PyStr \<or> prev = Some PyList then [[]] else [])
        @ [replicate j CHR ''#'' @ '' '' @ title utitle (replace_chr CHR ''_'' CHR '' '' k), []]
        @ layout utitle (Some PyDict) es"
      by simp
    then show ?thesis by blast
  next
    case False
    with 2 obtain pre post where "layout utitle (Some PyDict) es =
        pre @ [replicate j CHR ''#'' @ '' '' @ title utitle (replace_chr CHR ''_'' CHR '' '' k), []] @ post"
      by auto
    then have "layout utitle prev (EGroup i k' # es) =
        ((if prev = Some PyStr \<or> prev = Some PyList then [[]] else [])
          @ [replicate i CHR ''#'' @ '' '' @ title utitle (replace_chr CHR ''_'' CHR '' '' k'), []] @ pre)
        @ [replicate j CHR ''#'' @ '' '' @ title utitle (replace_chr CHR ''_'' CHR '' '' k), []] @ post"
      by simp
    then show ?thesis by blast
  qed
next
  case (3 utitle prev k' t es)
  then obtain pre post where "layout utitle (Some PyStr) es =
        pre @ [replicate j CHR ''#'' @ '' '' @ title utitle (replace_chr CHR ''_'' CHR '' '' k), []] @ post"
    by auto
  then have "layout utitle prev (EOption k' t # es) =
        ((''- `'' @ k' @ ''`: '' @ t) # pre)
        @ [replicate j CHR ''#'' @ '' '' @ title utitle (replace_chr CHR ''_'' CHR '' '' k), []] @ post"
    by simp
  then show ?case by blast
next
  case (4 utitle prev ls es)
  then obtain pre post where "layout utitle (Some PyList) es =
        pre @ [replicate j CHR ''#'' @ '' '' @ title utitle (replace_chr CHR ''_'' CHR '' '' k), []] @ post"
    by auto
  then have "layout utitle prev (ERawLines ls # es) =
        (ls @ pre)
        @ [replicate j CHR ''#'' @ '' '' @ title utitle (replace_chr CHR ''_'' CHR '' '' k), []] @ post"
    by simp
  then show ?case by blast
qed

lemma group_heading_printed:
  assumes "group_at x d k m"
  shows "\<exists>pre post. stdout (thing repr utitle x i s) =
       pre @ [replicate (i + d) CHR ''#'' @ '' '' @ title utitle (replace_chr CHR ''_'' CHR '' '' k), []] @ post"
proof -
  from layout_group [OF group_at_emissions [OF assms]] obtain pre post where
    "layout utitle (last_g s) (emissions repr x i) =
       pre @ [replicate (i + d) CHR ''#'' @ '' '' @ title utitle (replace_chr CHR ''_'' CHR '' '' k), []] @ post"
    by blast
  then have "stdout (thing repr utitle x i s) =
       (stdout s @ pre) @ [replicate (i + d) CHR ''#'' @ '' '' @ title utitle (replace_chr CHR ''_'' CHR '' '' k), []] @ post"
    by (simp add: thing_stdout)
  then show ?thesis by blast
qed

lemma length_title_from: "length (title_from b w) = length w"
  by (induction w arbitrary: b) simp_all

lemma title_from_nth:
  "n < length w \<Longrightarrow>
     title_from b w ! n =
       (if (if n = 0 then b else is_cased (w ! (n - 1))) then to_lower (w ! n) else to_upper (w ! n))"
proof (induction w arbitrary: b n)
  case Nil
  then show ?case by simp
next
  case (Cons c cs)
  show ?case
  proof (cases n)
    case 0
    then show ?thesis by simp
  next
    case (Suc n')
    with Cons.prems have "n' < length cs" by simp
    from Cons.IH [OF this, of "is_cased c"] Suc show ?thesis
      by (cases n') simp_all
  qed
qed

lemma cased_letter_all: "\<forall>c::char. is_cased c = spec_is_letter c"
  by code_simp

lemma upper_capital_all: "\<forall>c::char. to_upper c = spec_capital c"
  by code_simp

lemma lower_small_all: "\<forall>c::char. to_lower c = spec_small c"
  by code_simp

lemma title_from_spec: "title_from False w = spec_title_case w"
  unfolding spec_title_case_def
  using cased_letter_all upper_capital_all lower_small_all
  by (intro nth_equalityI) (simp_all add: length_title_from title_from_nth)

lemma replace_chr_map: "replace_chr old new w = map (\<lambda>c. if c = old then new else c) w"
  by (induction w) simp_all

lemma heading_text_spec:
  "title utitle (replace_chr CHR ''_'' CHR '' '' k) = spec_heading_text utitle k"
proof -
  have "is_ascii = (\<lambda>c. (of_char c :: nat) < 128)"
    by (rule ext) (simp add: is_ascii_def)
  then show ?thesis
    by (simp add: spec_heading_text_def title_def title_from_spec replace_chr_map Let_def)
qed

text \<open>
  A key with a character outside ASCII, here the two bytes of \<open>U+00E9\<close> before \<open>cole_x\<close>:
  the heading text is what \<open>utitle\<close> makes of the key with its underscore replaced.
\<close>

lemma title_outside_ascii:
  "title utitle (replace_chr CHR ''_'' CHR '' ''
      [CHR 0xC3, CHR 0xA9, CHR ''c'', CHR ''o'', CHR ''l'', CHR ''e'', CHR ''_'', CHR ''x''])
   = utitle [CHR 0xC3, CHR 0xA9, CHR ''c'', CHR ''o'', CHR ''l'', CHR ''e'', CHR '' '', CHR ''x'']"
  by code_simp

lemma takeWhile_hashes:
  "takeWhile (\<lambda>c. c = CHR ''#'') (replicate n CHR ''#'' @ '' '' @ w) = replicate n CHR ''#''"
  by (induction n) simp_all

lemma delitem_Inr:
  "delitem v key = Inr v' \<Longrightarrow>
     \<exists>m. v = JObject m \<and> key \<in> fst ` set m \<and> v' = JObject (filter (\<lambda>(k, w). k \<noteq> key) m)"
  by (cases v) (auto split: if_splits)

lemma filter_two_keys:
  "filter (\<lambda>(k, w). k \<noteq> b) (filter (\<lambda>(k, w). k \<noteq> a) d) =
     filter (\<lambda>(k, w). k \<noteq> a \<and> k \<noteq> b) d"
  by (induction d) auto

lemma main_Inr:
  assumes "main repr utitle loaded s = (Inr x', s')"
  shows "\<exists>d. getitem loaded ''docs'' = Inr (JObject d) \<and>
         ''name'' \<in> fst ` set d \<and> ''description'' \<in> fst ` set d \<and>
         x' = JObject (filter (\<lambda>(k, v). k \<noteq> ''name'' \<and> k \<noteq> ''description'') d) \<and>
         s' = thing repr utitle (filter (\<lambda>(k, v). k \<noteq> ''name'' \<and> k \<noteq> ''description'') d) 3 s"
proof -
  from assms obtain x where g: "getitem loaded ''docs'' = Inr x"
    by (cases "getitem loaded ''docs''") (simp_all add: main_def)
  from assms g obtain x1 where d1: "delitem x ''name'' = Inr x1"
    by (cases "delitem x ''name''") (simp_all add: main_def)
  from assms g d1 obtain x2 where d2: "delitem x1 ''description'' = Inr x2"
    by (cases "delitem x1 ''description''") (simp_all add: main_def)
  from delitem_Inr [OF d1] obtain d where
    x: "x = JObject d" and n: "''name'' \<in> fst ` set d"
    and x1: "x1 = JObject (filter (\<lambda>(k, w). k \<noteq> ''name'') d)"
    by blast
  from delitem_Inr [OF d2] obtain d' where
    x1': "x1 = JObject d'" and m0: "''description'' \<in> fst ` set d'"
    and x2': "x2 = JObject (filter (\<lambda>(k, w). k \<noteq> ''description'') d')"
    by blast
  from x1 x1' have d': "d' = filter (\<lambda>(k, w). k \<noteq> ''name'') d" by simp
  from m0 d' have
    m: "''description'' \<in> fst ` set (filter (\<lambda>(k, w). k \<noteq> ''name'') d)"
    by simp
  from x2' d' have
    x2: "x2 = JObject (filter (\<lambda>(k, v). k \<noteq> ''name'' \<and> k \<noteq> ''description'') d)"
    by (simp only: filter_two_keys)
  from m have m': "''description'' \<in> fst ` set d" by auto
  from assms g d1 d2 x2 have
    "x' = x2" and "s' = thing repr utitle (filter (\<lambda>(k, v). k \<noteq> ''name'' \<and> k \<noteq> ''description'') d) 3 s"
    by (simp_all add: main_def)
  with g x n m' x2 show ?thesis by blast
qed

subsection \<open>Records, lists and the module body\<close>

lemma state_update_both:
  "(s::state)\<lparr>stdout := out, last_g := l\<rparr> = \<lparr>last_g = l, stdout = out\<rparr>"
  "(s::state)\<lparr>last_g := l, stdout := out\<rparr> = \<lparr>last_g = l, stdout = out\<rparr>"
  by (cases s; simp)+


lemma map_of_filter_key:
  "map_of (filter (\<lambda>(k, v). P k) d) key = (if P key then map_of d key else None)"
  by (induction d) auto

lemma main_shape:
  "(\<exists>e. \<forall>s. main repr utitle loaded s = (Inl e, s)) \<or>
   (\<exists>x m. \<forall>s. main repr utitle loaded s = (Inr x, thing repr utitle m 3 s))"
proof (cases "getitem loaded ''docs''")
  case (Inl e)
  then have "\<forall>s. main repr utitle loaded s = (Inl e, s)" by (simp add: main_def)
  then show ?thesis by blast
next
  case g: (Inr x)
  show ?thesis
  proof (cases "delitem x ''name''")
    case (Inl e)
    with g have "\<forall>s. main repr utitle loaded s = (Inl e, s)" by (simp add: main_def)
    then show ?thesis by blast
  next
    case d1: (Inr x1)
    show ?thesis
    proof (cases "delitem x1 ''description''")
      case (Inl e)
      with g d1 have "\<forall>s. main repr utitle loaded s = (Inl e, s)" by (simp add: main_def)
      then show ?thesis by blast
    next
      case d2: (Inr x2)
      from delitem_Inr [OF d2] obtain m where "x2 = JObject (filter (\<lambda>(k, w). k \<noteq> ''description'') m)"
        by blast
      with g d1 d2 have "\<forall>s. main repr utitle loaded s =
          (Inr x2, thing repr utitle (filter (\<lambda>(k, w). k \<noteq> ''description'') m) 3 s)"
        by (simp add: main_def)
      then show ?thesis by blast
    qed
  qed
qed

section \<open>The claims\<close>

subsection \<open>C1: blank lines between emissions\<close>

text \<open>
  C1 as stated: in the flattened emission order a blank line is put between two
  consecutive group emissions, and none between a group and an option or a list just
  before it. The script does the opposite on both counts. For an option followed by a
  group it prints a blank line between the bullet and the heading, where the rule of the
  claim (\<open>spec_layout\<close>) has none.
\<close>

theorem blank_line_law_counterexample:
  "stdout (thing repr_stub utitle_stub [(''a'', JString ''x''), (''g'', JObject [])] 3 init)
     = [''- `a`: x'', [], ''### G'', []]
   \<and> stdout init @ spec_layout utitle_stub (last_g init)
         (emissions repr_stub [(''a'', JString ''x''), (''g'', JObject [])] 3)
     = [''- `a`: x'', ''### G'', []]"
  by code_simp

text \<open>
  C1 as amended: in the flattened emission order of a traversal, a blank line is inserted
  before the heading of a group exactly when the emission just before it is an option or
  a list; none is inserted before the first emission overall, and none before a group
  that follows a group, whose headings are separated by the one blank line that follows
  every heading. That is: what a traversal prints is the \<open>layout\<close> of its emissions,
  started with the value of \<open>last\<close>.
\<close>

theorem blank_line_law:
  "stdout (thing repr utitle x i s) = stdout s @ layout utitle (last_g s) (emissions repr x i)"
  using thing_layout [of repr utitle x i s] by simp

theorem blank_line_law_witness:
  "stdout (thing repr_stub utitle_stub
      [(''a'', JObject [(''b'', JObject [])]), (''c'', JString ''x''), (''d'', JObject [])] 3 init)
     = [''### A'', [], ''#### B'', [], ''- `c`: x'', [], ''### D'', []]"
  using blank_line_law [of repr_stub utitle_stub
      "[(''a'', JObject [(''b'', JObject [])]), (''c'', JString ''x''), (''d'', JObject [])]" 3 init]
  by code_simp

subsection \<open>C2: the depth of a heading\<close>

text \<open>
  C2: when the script succeeds and \<open>x\<close> is the mapping left after the two deletions, every
  group \<open>d\<close> mappings below \<open>x\<close> has its heading line in the output, directly followed by
  a blank line; the line starts with exactly \<open>3 + d\<close> marker characters, a space and the
  heading text coming after them.
\<close>

theorem heading_depth:
  assumes "main repr utitle loaded s = (Inr (JObject x), s')"
    and "group_at x d k m"
  shows "\<exists>pre h post.
     stdout s' = pre @ [h, []] @ post \<and>
     h = replicate (3 + d) CHR ''#'' @ '' '' @ title utitle (replace_chr CHR ''_'' CHR '' '' k) \<and>
     takeWhile (\<lambda>c. c = CHR ''#'') h = replicate (3 + d) CHR ''#''"
proof -
  from main_Inr [OF assms(1)] have s': "s' = thing repr utitle x 3 s"
    by auto
  from group_heading_printed [OF assms(2), of repr utitle 3 s] obtain pre post where
    "stdout (thing repr utitle x 3 s) =
       pre @ [replicate (3 + d) CHR ''#'' @ '' '' @ title utitle (replace_chr CHR ''_'' CHR '' '' k), []] @ post"
    by blast
  with s' show ?thesis
    using takeWhile_hashes [of "3 + d" "title utitle (replace_chr CHR ''_'' CHR '' '' k)"] by blast
qed

theorem heading_depth_witness:
  "main repr_stub utitle_stub
     (JObject [(''docs'', JObject [(''name'', JString ''n''), (''description'', JString ''d''),
        (''general'', JObject [(''timeout'', JString ''t''), (''sub_group'', JObject [])])])])
     init
    = (Inr (JObject [(''general'', JObject [(''timeout'', JString ''t''), (''sub_group'', JObject [])])]),
       \<lparr>last_g = Some PyDict, stdout = [''### General'', [], ''- `timeout`: t'', [], ''#### Sub Group'', []]\<rparr>)
   \<and> group_at [(''general'', JObject [(''timeout'', JString ''t''), (''sub_group'', JObject [])])]
        (Suc 0) ''sub_group'' []
   \<and> (\<exists>pre h post.
        [''### General'', [], ''- `timeout`: t'', [], ''#### Sub Group'', []] = pre @ [h, []] @ post \<and>
        h = ''#### Sub Group'' \<and>
        takeWhile (\<lambda>c. c = CHR ''#'') h = ''####'')"
proof -
  have m: "main repr_stub utitle_stub
     (JObject [(''docs'', JObject [(''name'', JString ''n''), (''description'', JString ''d''),
        (''general'', JObject [(''timeout'', JString ''t''), (''sub_group'', JObject [])])])])
     init
    = (Inr (JObject [(''general'', JObject [(''timeout'', JString ''t''), (''sub_group'', JObject [])])]),
       \<lparr>last_g = Some PyDict, stdout = [''### General'', [], ''- `timeout`: t'', [], ''#### Sub Group'', []]\<rparr>)"
    by code_simp
  have g: "group_at [(''general'', JObject [(''timeout'', JString ''t''), (''sub_group'', JObject [])])]
        (Suc 0) ''sub_group'' []"
    by (rule group_at.below [where k' = "''general''"
          and m' = "[(''timeout'', JString ''t''), (''sub_group'', JObject [])]"])
       (simp_all add: group_at.child)
  have t: "title utitle_stub ''sub group'' = ''Sub Group''"
    by code_simp
  have r: "replicate 4 CHR ''#'' = ''####''"
    by code_simp
  from heading_depth [OF m g] m g show ?thesis
    by (simp add: t r)
qed

subsection \<open>C3: the text of a heading\<close>

text \<open>
  C3: the heading of every group holds, after the marker characters and a space, the key
  with a space for every underscore and title case applied to the result
  (\<open>spec_heading_text\<close>): the key \<open>general_settings\<close> gives \<open>General Settings\<close>, and
  \<open>HTTP_proxy\<close> gives \<open>Http Proxy\<close>.
\<close>

theorem heading_text:
  assumes "group_at x d k m"
  shows "\<exists>pre post. stdout (thing repr utitle x i s) =
     pre @ [replicate (i + d) CHR ''#'' @ '' '' @ spec_heading_text utitle k] @ post"
proof -
  from group_heading_printed [OF assms, of repr utitle i s] obtain pre post where
    "stdout (thing repr utitle x i s) =
       pre @ [replicate (i + d) CHR ''#'' @ '' '' @ spec_heading_text utitle k, []] @ post"
    unfolding heading_text_spec by blast
  then have "stdout (thing repr utitle x i s) =
       pre @ [replicate (i + d) CHR ''#'' @ '' '' @ spec_heading_text utitle k] @ ([] # post)"
    by simp
  then show ?thesis by blast
qed

theorem heading_text_witness:
  "group_at [(''general_settings'', JObject [(''HTTP_proxy'', JObject [])])] (Suc 0) ''HTTP_proxy'' []
   \<and> spec_heading_text utitle_stub ''HTTP_proxy'' = ''Http Proxy''
   \<and> spec_heading_text utitle_stub ''general_settings'' = ''General Settings''
   \<and> stdout (thing repr_stub utitle_stub
        [(''general_settings'', JObject [(''HTTP_proxy'', JObject [])])] 3 init)
       = [''### General Settings'', [], ''#### Http Proxy'', []]
   \<and> (\<exists>pre post. stdout (thing repr_stub utitle_stub
        [(''general_settings'', JObject [(''HTTP_proxy'', JObject [])])] 3 init) =
         pre @ [''#### Http Proxy''] @ post)"
proof -
  have g: "group_at [(''general_settings'', JObject [(''HTTP_proxy'', JObject [])])]
      (Suc 0) ''HTTP_proxy'' []"
    by (rule group_at.below [where k' = "''general_settings''"
          and m' = "[(''HTTP_proxy'', JObject [])]"])
       (simp_all add: group_at.child)
  have t: "spec_heading_text utitle_stub ''HTTP_proxy'' = ''Http Proxy''"
    by code_simp
  have u: "spec_heading_text utitle_stub ''general_settings'' = ''General Settings''"
    by code_simp
  have r: "replicate 4 CHR ''#'' = ''####''"
    by code_simp
  have o: "stdout (thing repr_stub utitle_stub
        [(''general_settings'', JObject [(''HTTP_proxy'', JObject [])])] 3 init)
       = [''### General Settings'', [], ''#### Http Proxy'', []]"
    by code_simp
  from heading_text [OF g, of repr_stub utitle_stub 3 init] have
    "\<exists>pre post. stdout (thing repr_stub utitle_stub
        [(''general_settings'', JObject [(''HTTP_proxy'', JObject [])])] 3 init) =
         pre @ [''#### Http Proxy''] @ post"
    by (simp add: t r)
  with g t u o show ?thesis
    by blast
qed

subsection \<open>C4: options\<close>



subsection \<open>C5: lists of strings\<close>



subsection \<open>C6: missing keys\<close>

text \<open>
  C6: when the loaded mapping has no key \<open>docs\<close>, or the mapping under \<open>docs\<close> has no key
  \<open>name\<close> or no key \<open>description\<close>, the script ends with a \<open>KeyError\<close> for that key, in
  the state it started in: nothing has been printed.
\<close>

theorem missing_key_fails:
  "(map_of t ''docs'' = None \<longrightarrow>
      main repr utitle (JObject t) s = (Inl (KeyError ''docs''), s))
   \<and> (map_of t ''docs'' = Some (JObject d) \<and> ''name'' \<notin> fst ` set d \<longrightarrow>
      main repr utitle (JObject t) s = (Inl (KeyError ''name''), s))
   \<and> (map_of t ''docs'' = Some (JObject d) \<and> ''name'' \<in> fst ` set d
        \<and> ''description'' \<notin> fst ` set d \<longrightarrow>
      main repr utitle (JObject t) s = (Inl (KeyError ''description''), s))"
  by (auto simp: main_def)

theorem missing_key_fails_witness:
  "map_of [(''name'', JString ''n'')] ''docs'' = None
   \<and> main repr_stub utitle_stub (JObject [(''name'', JString ''n'')]) init = (Inl (KeyError ''docs''), init)
   \<and> map_of [(''docs'', JObject [(''description'', JString ''d''), (''a'', JObject [])])] ''docs''
       = Some (JObject [(''description'', JString ''d''), (''a'', JObject [])])
   \<and> ''name'' \<notin> fst ` set [(''description'', JString ''d''), (''a'', JObject [])]
   \<and> main repr_stub utitle_stub (JObject [(''docs'', JObject [(''description'', JString ''d''), (''a'', JObject [])])]) init
       = (Inl (KeyError ''name''), init)
   \<and> map_of [(''docs'', JObject [(''name'', JString ''n''), (''a'', JObject [])])] ''docs''
       = Some (JObject [(''name'', JString ''n''), (''a'', JObject [])])
   \<and> ''name'' \<in> fst ` set [(''name'', JString ''n''), (''a'', JObject [])]
   \<and> ''description'' \<notin> fst ` set [(''name'', JString ''n''), (''a'', JObject [])]
   \<and> main repr_stub utitle_stub (JObject [(''docs'', JObject [(''name'', JString ''n''), (''a'', JObject [])])]) init
       = (Inl (KeyError ''description''), init)
   \<and> stdout init = []"
  using
    missing_key_fails [of "[(''name'', JString ''n'')]" repr_stub utitle_stub init "[]"]
    missing_key_fails [of "[(''docs'', JObject [(''description'', JString ''d''), (''a'', JObject [])])]"
       repr_stub utitle_stub init "[(''description'', JString ''d''), (''a'', JObject [])]"]
    missing_key_fails [of "[(''docs'', JObject [(''name'', JString ''n''), (''a'', JObject [])])]"
       repr_stub utitle_stub init "[(''name'', JString ''n''), (''a'', JObject [])]"]
  by (simp add: init_def)

subsection \<open>C7: the document after the run\<close>

text \<open>
  C7: when the script succeeds, the variable \<open>x\<close> holds the mapping found under \<open>docs\<close>
  without its items \<open>name\<close> and \<open>description\<close>: the other items are there in their order
  and with their values, and a lookup of any other key gives what it gave before. The
  traversal has no statement that assigns to \<open>x\<close> or to a value reached from it, so the
  two deletions of the module body are all that changes the document.
\<close>

theorem only_two_keys_deleted:
  assumes "main repr utitle loaded s = (Inr x', s')"
  shows "\<exists>d. getitem loaded ''docs'' = Inr (JObject d) \<and>
     x' = JObject (filter (\<lambda>(k, v). k \<noteq> ''name'' \<and> k \<noteq> ''description'') d) \<and>
     (\<forall>key. getitem x' key =
        (if key = ''name'' \<or> key = ''description'' then Inl (KeyError key)
         else getitem (JObject d) key))"
proof -
  from main_Inr [OF assms] obtain d where
    g: "getitem loaded ''docs'' = Inr (JObject d)"
    and x': "x' = JObject (filter (\<lambda>(k, v). k \<noteq> ''name'' \<and> k \<noteq> ''description'') d)"
    by blast
  have "getitem x' key =
        (if key = ''name'' \<or> key = ''description'' then Inl (KeyError key)
         else getitem (JObject d) key)" for key
    unfolding x'
    using map_of_filter_key [of "\<lambda>k. k \<noteq> ''name'' \<and> k \<noteq> ''description''" d key]
    by simp
  with g x' show ?thesis by blast
qed

theorem only_two_keys_deleted_witness:
  "main repr_stub utitle_stub
     (JObject [(''docs'', JObject [(''name'', JString ''n''), (''general'', JObject [(''name'', JString ''kept'')]),
        (''description'', JString ''d''), (''tail'', JArray [JString ''l''])])])
     init
    = (Inr (JObject [(''general'', JObject [(''name'', JString ''kept'')]), (''tail'', JArray [JString ''l''])]),
       \<lparr>last_g = Some PyList, stdout = [''### General'', [], ''- `name`: kept'', ''l'']\<rparr>)
   \<and> (\<exists>d. getitem
          (JObject [(''docs'', JObject [(''name'', JString ''n''), (''general'', JObject [(''name'', JString ''kept'')]),
             (''description'', JString ''d''), (''tail'', JArray [JString ''l''])])]) ''docs''
          = Inr (JObject d) \<and>
        JObject [(''general'', JObject [(''name'', JString ''kept'')]), (''tail'', JArray [JString ''l''])]
          = JObject (filter (\<lambda>(k, v). k \<noteq> ''name'' \<and> k \<noteq> ''description'') d))"
proof -
  have m: "main repr_stub utitle_stub
     (JObject [(''docs'', JObject [(''name'', JString ''n''), (''general'', JObject [(''name'', JString ''kept'')]),
        (''description'', JString ''d''), (''tail'', JArray [JString ''l''])])])
     init
    = (Inr (JObject [(''general'', JObject [(''name'', JString ''kept'')]), (''tail'', JArray [JString ''l''])]),
       \<lparr>last_g = Some PyList, stdout = [''### General'', [], ''- `name`: kept'', ''l'']\<rparr>)"
    by code_simp
  from only_two_keys_deleted [OF m] m show ?thesis
    by blast
qed

subsection \<open>C8: determinism\<close>

text \<open>
  C8: two runs on the same loaded value that both start with \<open>last = None\<close> end alike,
  with the same exception or the same document, and write the same bytes after what
  standard output held before.
\<close>

theorem output_deterministic:
  assumes "last_g s1 = None" and "last_g s2 = None"
  shows "fst (main repr utitle loaded s1) = fst (main repr utitle loaded s2) \<and>
     (\<exists>bytes. stdout_bytes (snd (main repr utitle loaded s1)) = stdout_bytes s1 @ bytes \<and>
              stdout_bytes (snd (main repr utitle loaded s2)) = stdout_bytes s2 @ bytes)"
proof -
  from main_shape [of repr utitle loaded] show ?thesis
  proof
    assume "\<exists>e. \<forall>s. main repr utitle loaded s = (Inl e, s)"
    then obtain e where "\<forall>s. main repr utitle loaded s = (Inl e, s)" by blast
    then have "fst (main repr utitle loaded s1) = fst (main repr utitle loaded s2)"
      and "stdout_bytes (snd (main repr utitle loaded s1)) = stdout_bytes s1 @ []"
      and "stdout_bytes (snd (main repr utitle loaded s2)) = stdout_bytes s2 @ []"
      by simp_all
    then show ?thesis by blast
  next
    assume "\<exists>x m. \<forall>s. main repr utitle loaded s = (Inr x, thing repr utitle m 3 s)"
    then obtain x m where r: "\<forall>s. main repr utitle loaded s = (Inr x, thing repr utitle m 3 s)" by blast
    let ?ls = "layout utitle None (emissions repr m 3)"
    have "stdout (thing repr utitle m 3 s1) = stdout s1 @ ?ls" and "stdout (thing repr utitle m 3 s2) = stdout s2 @ ?ls"
      using assms by (simp_all add: thing_stdout)
    then have "stdout_bytes (thing repr utitle m 3 s1) = stdout_bytes s1 @ concat (map (\<lambda>line. line @ [CHR 0x0A]) ?ls)"
      and "stdout_bytes (thing repr utitle m 3 s2) = stdout_bytes s2 @ concat (map (\<lambda>line. line @ [CHR 0x0A]) ?ls)"
      by (simp_all add: stdout_bytes_def)
    with r show ?thesis by simp
  qed
qed

theorem output_deterministic_witness:
  "last_g init = None \<and> last_g \<lparr>last_g = None, stdout = [''earlier'']\<rparr> = None
   \<and> fst (main repr_stub utitle_stub (JObject [(''docs'', JObject [(''name'', JString ''n''),
          (''description'', JString ''d''), (''a'', JString ''x'')])]) init)
     = fst (main repr_stub utitle_stub (JObject [(''docs'', JObject [(''name'', JString ''n''),
          (''description'', JString ''d''), (''a'', JString ''x'')])])
          \<lparr>last_g = None, stdout = [''earlier'']\<rparr>)
   \<and> (\<exists>bytes.
        stdout_bytes (snd (main repr_stub utitle_stub (JObject [(''docs'', JObject [(''name'', JString ''n''),
          (''description'', JString ''d''), (''a'', JString ''x'')])]) init))
          = stdout_bytes init @ bytes \<and>
        stdout_bytes (snd (main repr_stub utitle_stub (JObject [(''docs'', JObject [(''name'', JString ''n''),
          (''description'', JString ''d''), (''a'', JString ''x'')])])
          \<lparr>last_g = None, stdout = [''earlier'']\<rparr>))
          = stdout_bytes \<lparr>last_g = None, stdout = [''earlier'']\<rparr> @ bytes)"
proof -
  have a: "last_g init = None" by (simp add: init_def)
  have b: "last_g \<lparr>last_g = None, stdout = [''earlier'']\<rparr> = None" by simp
  from output_deterministic [OF a b] a b show ?thesis
    by blast
qed

subsection \<open>C9: values of other types\<close>

text \<open>
  C9: a value that is not a mapping, a string or a list is passed over: nothing is
  printed for it, \<open>last\<close> keeps its value, and the traversal goes on with the keys that
  follow.
\<close>

theorem unsupported_value_skipped:
  assumes "\<not> isinstance v PyDict" and "\<not> isinstance v PyStr" and "\<not> isinstance v PyList"
  shows "thing repr utitle ((k, v) # rest) i s = thing repr utitle rest i s"
  using assms by (cases v) simp_all

theorem unsupported_value_skipped_witness:
  "\<not> isinstance (JInt 5) PyDict \<and> \<not> isinstance (JInt 5) PyStr \<and> \<not> isinstance (JInt 5) PyList
   \<and> thing repr_stub utitle_stub [(''retries'', JInt 5), (''timeout'', JString ''t'')] 3 init =
       \<lparr>last_g = Some PyStr, stdout = [''- `timeout`: t'']\<rparr>"
proof -
  have a: "\<not> isinstance (JInt 5) PyDict" and b: "\<not> isinstance (JInt 5) PyStr"
    and c: "\<not> isinstance (JInt 5) PyList"
    by simp_all
  from unsupported_value_skipped [OF a b c, of repr_stub utitle_stub "''retries''" "[(''timeout'', JString ''t'')]" 3 init]
  show ?thesis
    by (simp add: init_def print_def)
qed

subsection \<open>C10: the empty list\<close>

text \<open>
  C10: an empty list prints nothing and still sets \<open>last\<close> to the list type, so a group
  that comes next has a blank line before its heading, whatever was emitted before the
  list.
\<close>

theorem empty_rawlines:
  "thing repr utitle [(k, JArray [])] i s = s\<lparr>last_g := Some PyList\<rparr>
   \<and> thing repr utitle ((k, JArray []) # (k', JObject m) # rest) i s =
       thing repr utitle rest i
         (thing repr utitle m (i + 1)
            \<lparr>last_g = Some PyDict,
             stdout = stdout s @
               [[], replicate i CHR ''#'' @ '' '' @ title utitle (replace_chr CHR ''_'' CHR '' '' k'), []]\<rparr>)"
  by (simp add: print_def Let_def state_update_both)

theorem empty_rawlines_witness:
  "stdout (thing repr_stub utitle_stub [(''a'', JObject []), (''b'', JArray []), (''c'', JObject [])] 3 init)
     = [''### A'', [], [], ''### C'', []]
   \<and> stdout (thing repr_stub utitle_stub [(''a'', JObject []), (''c'', JObject [])] 3 init)
     = [''### A'', [], ''### C'', []]
   \<and> stdout (thing repr_stub utitle_stub [(''b'', JArray []), (''c'', JObject [])] 3 init)
     = [[], ''### C'', []]"
  using empty_rawlines [of repr_stub utitle_stub "''b''" 3 init "''c''" "[]" "[]"]
  by code_simp

end
